theory Spec2Isabelle
  imports Main "HOL-Library.Multiset" "HOL-Library.Sublist"
begin

section \<open>Text and scalar values\<close>

text \<open>
  The program is sampling_script.py. Python's \<^verbatim>\<open>str\<close> is a sequence of code points; the
  model keeps the code points below 256, one \<^typ>\<open>char\<close> each. \<^verbatim>\<open>str.isspace\<close> holds on
  exactly these of them: tab to carriage return (9-13), the separators 28-31, the space
  (32), next line (133) and the no-break space (160).
\<close>

definition isspace :: "char \<Rightarrow> bool" where
  "isspace c =
     (let n = (of_char c :: nat)
      in (9 \<le> n \<and> n \<le> 13) \<or> (28 \<le> n \<and> n \<le> 32) \<or> n = 133 \<or> n = 160)"

text \<open>\<^verbatim>\<open>str.strip()\<close> with no argument removes the whitespace at both ends.\<close>

definition strip :: "string \<Rightarrow> string" where
  "strip s = rev (dropWhile isspace (rev (dropWhile isspace s)))"

text \<open>Exceptions are values; \<^verbatim>\<open>str(e)\<close> of an exception is its message.\<close>

datatype exn = ValueError string | IndexError string | OtherError string

fun exn_text :: "exn \<Rightarrow> string" where
  "exn_text (ValueError m) = m"
| "exn_text (IndexError m) = m"
| "exn_text (OtherError m) = m"

text \<open>
  The decimal text of an integer. \<^verbatim>\<open>str\<close> of an integer, and an f-string field that
  formats one, raise \<^verbatim>\<open>ValueError\<close> when the integer has more decimal digits than the
  interpreter's limit (\<^verbatim>\<open>sys.get_int_max_str_digits()\<close>, 4300 by default); the sign is
  not counted.
\<close>

definition digit :: "nat \<Rightarrow> char" where
  "digit d = ''0123456789'' ! d"

fun str_nat :: "nat \<Rightarrow> string" where
  "str_nat n = (if n < 10 then [digit n] else str_nat (n div 10) @ [digit (n mod 10)])"

declare str_nat.simps [simp del]

definition dec_text :: "int \<Rightarrow> string" where
  "dec_text i = (if i < 0 then CHR ''-'' # str_nat (nat (- i)) else str_nat (nat i))"

definition int_digits :: "int \<Rightarrow> nat" where
  "int_digits i = length (str_nat (nat (abs i)))"

definition max_str_digits :: nat where
  "max_str_digits = 4300"

definition digits_error :: exn where
  "digits_error =
     ValueError (''Exceeds the limit (4300 digits) for integer string conversion; ''
                 @ ''use sys.set_int_max_str_digits() to increase the limit'')"

definition str_int :: "int \<Rightarrow> exn + string" where
  "str_int i = (if max_str_digits < int_digits i then Inl digits_error else Inr (dec_text i))"

text \<open>
  The raw entries of an input list or of a spreadsheet column are scalar values of any
  kind; \<^verbatim>\<open>str(p)\<close> turns each into text, or raises. The model has text, integers,
  booleans and \<^verbatim>\<open>None\<close>; floating-point cells are outside it.
\<close>

datatype scalar = SStr string | SInt int | SBool bool | SNone

fun py_str :: "scalar \<Rightarrow> exn + string" where
  "py_str (SStr s) = Inr s"
| "py_str (SInt i) = str_int i"
| "py_str (SBool b) = Inr (if b then ''True'' else ''False'')"
| "py_str SNone = Inr ''None''"

text \<open>
  The comprehension \<^verbatim>\<open>[str(p).strip() for p in xs if str(p).strip()]\<close> of lines 41 and
  155. The entries are visited in order; an empty text is falsy and its entry is skipped;
  the first entry whose \<^verbatim>\<open>str\<close> raises ends the comprehension with that exception.
\<close>

fun normalize_entries :: "scalar list \<Rightarrow> exn + string list" where
  "normalize_entries [] = Inr []"
| "normalize_entries (p # ps) =
     (case py_str p of
        Inl e \<Rightarrow> Inl e
      | Inr t \<Rightarrow>
          (case normalize_entries ps of
             Inl e \<Rightarrow> Inl e
           | Inr rest \<Rightarrow> Inr (if strip t \<noteq> [] then strip t # rest else rest)))"

section \<open>Recommendation sizing\<close>

text \<open>
  \<^verbatim>\<open>get_recommended_sample_size\<close> (sampling_script.py, lines 71-133) builds a dictionary
  with the keys \<^verbatim>\<open>total_projects\<close>, \<^verbatim>\<open>conservative\<close>, \<^verbatim>\<open>moderate\<close>, \<^verbatim>\<open>aggressive\<close> and
  \<^verbatim>\<open>notes\<close> (the field \<open>rec_notes\<close> here). The dictionary has a fixed key set, so it is
  a record; Python's unbounded integers are \<^typ>\<open>int\<close>.
\<close>

record recommendations =
  total_projects :: int
  conservative :: int
  moderate :: int
  aggressive :: int
  rec_notes :: "string list"

definition general_notes :: "string list" where
  "general_notes =
     [''Conservative: Lower audit risk, higher documentation cost'',
      ''Moderate: Balanced approach, most common selection'',
      ''Aggressive: Higher audit risk, lower documentation cost'',
      ''Consider project size, complexity, and credit value when selecting'']"

text \<open>
  The \<^verbatim>\<open>if\<close>/\<open>elif\<close> chain of the source, branch for branch; each branch sets the three
  tiers and appends its note, and the four general notes are appended after the chain.
\<close>

definition get_recommended_sample_size :: "int \<Rightarrow> recommendations" where
  "get_recommended_sample_size n =
     (let r = \<lparr>total_projects = n, conservative = 0, moderate = 0, aggressive = 0, rec_notes = []\<rparr>;
          r = (if n \<le> 10 then
                 r\<lparr>conservative := n, moderate := n, aggressive := n,
                   rec_notes := rec_notes r @ [''Document all projects for small portfolios'']\<rparr>
               else if n \<le> 25 then
                 r\<lparr>conservative := min n 15, moderate := min n 12, aggressive := min n 8,
                   rec_notes := rec_notes r @ [''Small portfolio - document majority of projects'']\<rparr>
               else if n \<le> 50 then
                 r\<lparr>conservative := min n 25, moderate := min n 18, aggressive := min n 12,
                   rec_notes := rec_notes r @ [''Medium portfolio - 25-50% documentation typical'']\<rparr>
               else if n \<le> 100 then
                 r\<lparr>conservative := min n 35, moderate := min n 25, aggressive := min n 15,
                   rec_notes := rec_notes r @ [''Large portfolio - 15-35% documentation common'']\<rparr>
               else if n \<le> 200 then
                 r\<lparr>conservative := min n 50, moderate := min n 35, aggressive := min n 20,
                   rec_notes := rec_notes r @ [''Very large portfolio - 10-25% documentation'']\<rparr>
               else
                 r\<lparr>conservative := min n 75, moderate := min n 50, aggressive := min n 30,
                   rec_notes := rec_notes r @
                     [''Enterprise portfolio - 5-15% documentation may suffice'']\<rparr>)
      in r\<lparr>rec_notes := rec_notes r @ general_notes\<rparr>)"

text \<open>
  The bucket table as the specification prints it (section 4.4): six rows, each with both
  of its bounds, the upper bound inclusive. A count below zero is in no row.
\<close>

definition spec_bucket_table :: "int \<Rightarrow> (int \<times> int \<times> int) option" where
  "spec_bucket_table n =
     (if 0 \<le> n \<and> n \<le> 10 then Some (n, n, n)
      else if 11 \<le> n \<and> n \<le> 25 then Some (min n 15, min n 12, min n 8)
      else if 26 \<le> n \<and> n \<le> 50 then Some (min n 25, min n 18, min n 12)
      else if 51 \<le> n \<and> n \<le> 100 then Some (min n 35, min n 25, min n 15)
      else if 101 \<le> n \<and> n \<le> 200 then Some (min n 50, min n 35, min n 20)
      else if 200 < n then Some (min n 75, min n 50, min n 30)
      else None)"

definition tiers :: "recommendations \<Rightarrow> int \<times> int \<times> int" where
  "tiers r = (conservative r, moderate r, aggressive r)"

section \<open>The process: random generator and standard output\<close>

text \<open>
  The module-level generator of \<^verbatim>\<open>random\<close> and the lines printed so far are the state
  every method runs in. A generator state is the sequence of raw draws it will still
  deliver, so any deterministic generator is covered.
\<close>

type_synonym rng = "nat \<Rightarrow> nat"

record process =
  generator :: rng
  stdout :: "string list"

definition print :: "string \<Rightarrow> process \<Rightarrow> process" where
  "print line s = s\<lparr>stdout := stdout s @ [line]\<rparr>"

definition constant_tape :: "nat \<Rightarrow> rng" where
  "constant_tape c = (\<lambda>i. c)"

text \<open>A draw below \<open>n\<close> consumes one raw draw of the generator.\<close>

definition randbelow :: "nat \<Rightarrow> rng \<Rightarrow> nat \<times> rng" where
  "randbelow n g = (g 0 mod n, \<lambda>i. g (Suc i))"

text \<open>
  Modelled from the spec: the sampling primitive \<^verbatim>\<open>random.sample\<close> of Python's standard
  library, which is not among the repository's sources. The specification calls it a
  selection without replacement over the positions of the input: \<open>k\<close> times, a position
  of the remaining pool is drawn, its entry is output and it leaves the pool (the last
  entry of the pool moves into the vacancy, as the library's pool loop does). A count
  outside \<open>0..n\<close> is rejected with a \<^verbatim>\<open>ValueError\<close>.
\<close>

fun sample_pool :: "'a list \<Rightarrow> nat \<Rightarrow> rng \<Rightarrow> 'a list \<times> rng" where
  "sample_pool pool 0 g = ([], g)"
| "sample_pool pool (Suc k) g =
     (let (j, g1) = randbelow (length pool) g;
          (rest, g2) = sample_pool (butlast (pool[j := last pool])) k g1
      in (pool ! j # rest, g2))"

definition sample :: "'a list \<Rightarrow> int \<Rightarrow> rng \<Rightarrow> (exn + 'a list) \<times> rng" where
  "sample population k g =
     (if k < 0 \<or> int (length population) < k
      then (Inl (ValueError ''Sample larger than population or is negative''), g)
      else let (result, g1) = sample_pool population (nat k) g in (Inr result, g1))"

section \<open>The randomizer\<close>

text \<open>
  \<^verbatim>\<open>RDProjectRandomizer.__init__\<close> (lines 13-16): \<^verbatim>\<open>if seed: random.seed(seed)\<close>. The
  test is Python's truthiness, so \<^verbatim>\<open>None\<close> and \<open>0\<close> both skip the call. What the library's
  \<^verbatim>\<open>random.seed\<close> makes of a seed is the parameter \<open>seed_state\<close>.
\<close>

definition RDProjectRandomizer_init :: "(int \<Rightarrow> rng) \<Rightarrow> int option \<Rightarrow> process \<Rightarrow> process" where
  "RDProjectRandomizer_init seed_state seed s =
     (case seed of
        None \<Rightarrow> s
      | Some v \<Rightarrow> if v \<noteq> 0 then s\<lparr>generator := seed_state v\<rparr> else s)"

text \<open>
  \<^verbatim>\<open>select_random_projects\<close> (lines 50-69). The result is the selection or the exception
  raised, with the process state after the call. The warning of line 62 is an f-string
  with two integer fields, formatted before the count is clamped on line 63: when a field
  cannot be formatted the exception leaves the method and nothing has been printed.
\<close>

definition select_random_projects ::
  "string list \<Rightarrow> int \<Rightarrow> process \<Rightarrow> (exn + string list) \<times> process" where
  "select_random_projects projects num_to_select s =
     (case (if int (length projects) < num_to_select
            then (case str_int num_to_select of
                    Inl e \<Rightarrow> Inl e
                  | Inr requested \<Rightarrow>
                      (case str_int (int (length projects)) of
                         Inl e \<Rightarrow> Inl e
                       | Inr available \<Rightarrow>
                           Inr (int (length projects),
                                print (''Warning: Requested '' @ requested
                                       @ '' projects but only '' @ available
                                       @ '' available'') s)))
            else Inr (num_to_select, s)) of
        Inl e \<Rightarrow> (Inl e, s)
      | Inr (num_to_select, s1) \<Rightarrow>
          if num_to_select \<le> 0 then (Inr [], s1)
          else let (selected, g) = sample projects num_to_select (generator s1)
               in (selected, s1\<lparr>generator := g\<rparr>))"

text \<open>
  \<^verbatim>\<open>load_projects_from_excel\<close> (lines 18-48). \<^verbatim>\<open>pd.read_excel\<close> is the parameter
  \<open>read_excel\<close>: for a path it raises or delivers a data frame, the columns in order, each
  with its name and its cells, a missing cell being \<open>None\<close>. \<open>load_projects_try\<close> is the
  body of the \<^verbatim>\<open>try\<close> block, \<open>load_projects_from_excel\<close> adds the \<^verbatim>\<open>except Exception\<close>
  handler. The test \<^verbatim>\<open>if project_column:\<close> of line 32 is Python's truthiness: the empty
  column name takes the branch of no column name.
\<close>

type_synonym dataframe = "(string \<times> scalar option list) list"

definition dropna :: "'a option list \<Rightarrow> 'a list" where
  "dropna cells = [v. Some v \<leftarrow> cells]"

definition load_projects_try ::
  "(string \<Rightarrow> exn + dataframe) \<Rightarrow> string \<Rightarrow> string option \<Rightarrow> process
     \<Rightarrow> exn + (string list \<times> process)" where
  "load_projects_try read_excel file_path project_column s =
     (case read_excel file_path of
        Inl e \<Rightarrow> Inl e
      | Inr df \<Rightarrow>
          (case (case (case project_column of
                         None \<Rightarrow> None
                       | Some c \<Rightarrow> if c = [] then None else Some c) of
                   Some c \<Rightarrow>
                     (case map_of df c of
                        None \<Rightarrow>
                          Inl (ValueError (''Column '' @ [CHR 0x27] @ c @ [CHR 0x27]
                                           @ '' not found in Excel file''))
                      | Some cells \<Rightarrow> Inr (dropna cells))
                 | None \<Rightarrow>
                     (case df of
                        [] \<Rightarrow> Inl (IndexError ''single positional indexer is out-of-bounds'')
                      | col # _ \<Rightarrow> Inr (dropna (snd col)))) of
             Inl e \<Rightarrow> Inl e
           | Inr cells \<Rightarrow>
               (case normalize_entries cells of
                  Inl e \<Rightarrow> Inl e
                | Inr projects \<Rightarrow>
                    (case str_int (int (length projects)) of
                       Inl e \<Rightarrow> Inl e
                     | Inr n \<Rightarrow>
                         Inr (projects,
                              print (''Loaded '' @ n @ '' projects from Excel file'') s)))))"

definition load_projects_from_excel ::
  "(string \<Rightarrow> exn + dataframe) \<Rightarrow> string \<Rightarrow> string option \<Rightarrow> process
     \<Rightarrow> string list \<times> process" where
  "load_projects_from_excel read_excel file_path project_column s =
     (case load_projects_try read_excel file_path project_column s of
        Inr r \<Rightarrow> r
      | Inl e \<Rightarrow> ([], print (''Error loading Excel file: '' @ exn_text e) s))"

text \<open>
  \<^verbatim>\<open>randomize_projects\<close> (lines 135-180). The input is a path, a list, or anything else
  (which raises); the level is one of the three tier keys. \<open>resolve_input\<close> is the
  loading step of lines 152-158. The result dictionary is either the one with the single
  key \<^verbatim>\<open>error\<close> or the full one; its rounded floating-point percentage is not modelled.
  An exception of the list comprehension, of an f-string or of the selection leaves the
  method.
\<close>

datatype input_data = FilePath string | InMemoryList "scalar list" | OtherInput

datatype level = Conservative | Moderate | Aggressive

fun level_name :: "level \<Rightarrow> string" where
  "level_name Conservative = ''conservative''"
| "level_name Moderate = ''moderate''"
| "level_name Aggressive = ''aggressive''"

fun tier :: "level \<Rightarrow> recommendations \<Rightarrow> int" where
  "tier Conservative r = conservative r"
| "tier Moderate r = moderate r"
| "tier Aggressive r = aggressive r"

record selection =
  result_total_projects :: int
  selected_count :: int
  selected_projects :: "string list"
  result_recommendations :: recommendations

datatype result = ErrorResult string | SelectionResult selection

definition resolve_input ::
  "(string \<Rightarrow> exn + dataframe) \<Rightarrow> input_data \<Rightarrow> string option \<Rightarrow> process
     \<Rightarrow> (exn + string list) \<times> process" where
  "resolve_input read_excel input_data project_column s =
     (case input_data of
        FilePath path \<Rightarrow>
          (let (projects, s1) = load_projects_from_excel read_excel path project_column s
           in (Inr projects, s1))
      | InMemoryList xs \<Rightarrow>
          (case normalize_entries xs of
             Inl e \<Rightarrow> (Inl e, s)
           | Inr projects \<Rightarrow>
               (case str_int (int (length projects)) of
                  Inl e \<Rightarrow> (Inl e, s)
                | Inr n \<Rightarrow>
                    (Inr projects,
                     print (''Using provided list of '' @ n @ '' projects'') s)))
      | OtherInput \<Rightarrow>
          (Inl (ValueError ''Input must be either file path (string) or list of projects''),
           s))"

definition randomize_projects ::
  "(string \<Rightarrow> exn + dataframe) \<Rightarrow> input_data \<Rightarrow> int option \<Rightarrow> string option \<Rightarrow> level
     \<Rightarrow> process \<Rightarrow> (exn + result) \<times> process" where
  "randomize_projects read_excel input_data num_to_select project_column
       recommendation_level s =
     (case resolve_input read_excel input_data project_column s of
        (Inl e, s1) \<Rightarrow> (Inl e, s1)
      | (Inr projects, s1) \<Rightarrow>
          if projects = [] then (Inr (ErrorResult ''No projects found in input''), s1)
          else
            (let recs = get_recommended_sample_size (int (length projects))
             in case (case num_to_select of
                        None \<Rightarrow>
                          (case str_int (tier recommendation_level recs) of
                             Inl e \<Rightarrow> Inl e
                           | Inr n \<Rightarrow>
                               Inr (tier recommendation_level recs,
                                    print (''Using '' @ level_name recommendation_level
                                           @ '' recommendation: '' @ n @ '' projects'') s1))
                      | Some n \<Rightarrow> Inr (n, s1)) of
                  Inl e \<Rightarrow> (Inl e, s1)
                | Inr (num_to_select, s2) \<Rightarrow>
                    (case select_random_projects projects num_to_select s2 of
                       (Inl e, s3) \<Rightarrow> (Inl e, s3)
                     | (Inr selected, s3) \<Rightarrow>
                         (Inr (SelectionResult
                            \<lparr>result_total_projects = int (length projects),
                             selected_count = int (length selected),
                             selected_projects = selected,
                             result_recommendations = recs\<rparr>),
                          s3))))"

section \<open>Properties of the recommendation table\<close>

lemma tiers_get_recommended_sample_size:
  "tiers (get_recommended_sample_size n) =
     (if n \<le> 10 then (n, n, n)
      else if n \<le> 25 then (min n 15, min n 12, min n 8)
      else if n \<le> 50 then (min n 25, min n 18, min n 12)
      else if n \<le> 100 then (min n 35, min n 25, min n 15)
      else if n \<le> 200 then (min n 50, min n 35, min n 20)
      else (min n 75, min n 50, min n 30))"
  by (simp add: tiers_def get_recommended_sample_size_def Let_def)

text \<open>
  Claim C2. For every count \<open>n \<ge> 0\<close> the three tiers computed by
  \<^verbatim>\<open>get_recommended_sample_size\<close> are the row of the specification's bucket table that
  \<open>n\<close> falls in, with inclusive upper bounds; at the boundary, \<open>n = 10\<close> gives
  \<open>(10, 10, 10)\<close> and \<open>n = 11\<close> gives \<open>(11, 11, 8)\<close>.
\<close>

theorem recommended_sample_size_is_bucket_table:
  "(0 \<le> n \<longrightarrow> spec_bucket_table n = Some (tiers (get_recommended_sample_size n)))
   \<and> tiers (get_recommended_sample_size 10) = (10, 10, 10)
   \<and> tiers (get_recommended_sample_size 11) = (11, 11, 8)"
  by (simp add: tiers_get_recommended_sample_size spec_bucket_table_def)

theorem recommended_sample_size_is_bucket_table_witness:
  "(0::int) \<le> 26 \<and> spec_bucket_table 26 = Some (25, 18, 12)
   \<and> tiers (get_recommended_sample_size 26) = (25, 18, 12)"
  using recommended_sample_size_is_bucket_table [of 26]
  by (simp add: spec_bucket_table_def)

text \<open>
  Claim C8. For every count \<open>n \<ge> 0\<close> the tiers are ordered, conservative at least
  moderate at least aggressive, and none exceeds \<open>n\<close>.
\<close>

theorem recommended_tiers_ordered:
  "0 \<le> n \<Longrightarrow>
     aggressive (get_recommended_sample_size n) \<le> moderate (get_recommended_sample_size n)
     \<and> moderate (get_recommended_sample_size n) \<le> conservative (get_recommended_sample_size n)
     \<and> conservative (get_recommended_sample_size n) \<le> n"
  by (auto simp add: get_recommended_sample_size_def Let_def)

theorem recommended_tiers_ordered_witness:
  "(0::int) \<le> 60
   \<and> aggressive (get_recommended_sample_size 60) = 15
   \<and> moderate (get_recommended_sample_size 60) = 25
   \<and> conservative (get_recommended_sample_size 60) = 35"
  using recommended_tiers_ordered [of 60]
  by (simp add: get_recommended_sample_size_def Let_def)

section \<open>Decimal texts and the digit limit\<close>

lemma length_str_nat:
  "length (str_nat n) = (if n < 10 then 1 else Suc (length (str_nat (n div 10))))"
  by (subst str_nat.simps) simp

lemma length_str_nat_mono: "a \<le> b \<Longrightarrow> length (str_nat a) \<le> length (str_nat b)"
proof (induction b arbitrary: a rule: str_nat.induct)
  case (1 n)
  show ?case
  proof (cases "n < 10")
    case True
    with "1.prems" have "a < 10" by simp
    with True show ?thesis by (simp add: length_str_nat [of a] length_str_nat [of n])
  next
    case False
    show ?thesis
    proof (cases "a < 10")
      case True
      with False show ?thesis by (simp add: length_str_nat [of a] length_str_nat [of n])
    next
      case a: False
      from "1.prems" have "a div 10 \<le> n div 10" by (rule div_le_mono)
      with False have "length (str_nat (a div 10)) \<le> length (str_nat (n div 10))"
        by (rule "1.IH")
      with False a show ?thesis by (simp add: length_str_nat [of a] length_str_nat [of n])
    qed
  qed
qed

lemma int_digits_mono: "0 \<le> a \<Longrightarrow> a \<le> b \<Longrightarrow> int_digits a \<le> int_digits b"
  unfolding int_digits_def by (rule length_str_nat_mono) simp

lemma length_str_nat_power: "length (str_nat (10 ^ k)) = Suc k"
proof (induction k)
  case 0
  show ?case by (simp add: length_str_nat [of "Suc 0"])
next
  case (Suc k)
  have big: "\<not> (10::nat) * 10 ^ k < 10" by simp
  have "length (str_nat (10 * 10 ^ k)) = Suc (length (str_nat (10 * 10 ^ k div 10)))"
    using big by (simp add: length_str_nat [of "10 * 10 ^ k"])
  then show ?case using Suc.IH by simp
qed

lemma int_digits_power: "int_digits (10 ^ k) = Suc k"
  by (simp add: int_digits_def nat_power_eq length_str_nat_power)

lemma str_int_within_limit: "int_digits i \<le> max_str_digits \<Longrightarrow> str_int i = Inr (dec_text i)"
  by (simp add: str_int_def)

lemma str_int_beyond_limit: "max_str_digits < int_digits i \<Longrightarrow> str_int i = Inl digits_error"
  by (simp add: str_int_def)

lemma str_int_power_limit: "str_int (10 ^ max_str_digits) = Inl digits_error"
  by (simp add: str_int_def int_digits_power)

lemma str_int_error: "str_int i = Inl e \<Longrightarrow> e = digits_error"
  by (simp add: str_int_def split: if_splits)

lemma py_str_error: "py_str p = Inl e \<Longrightarrow> e = digits_error"
  by (cases p) (auto dest: str_int_error)

section \<open>Input normalization\<close>

lemma strip_decomposition:
  "\<exists>l r. s = l @ strip s @ r \<and> (\<forall>c \<in> set l. isspace c) \<and> (\<forall>c \<in> set r. isspace c)"
proof -
  define t where "t = dropWhile isspace s"
  have t: "t = strip s @ rev (takeWhile isspace (rev t))"
    by (metis rev_append rev_rev_ident takeWhile_dropWhile_id strip_def t_def)
  have "s = takeWhile isspace s @ t" by (simp add: t_def)
  with t have "s = takeWhile isspace s @ strip s @ rev (takeWhile isspace (rev t))" by simp
  moreover have "\<forall>c \<in> set (takeWhile isspace s). isspace c"
    by (auto dest: set_takeWhileD)
  moreover have "\<forall>c \<in> set (rev (takeWhile isspace (rev t))). isspace c"
    by (auto dest: set_takeWhileD)
  ultimately show ?thesis by blast
qed

lemma strip_trimmed:
  assumes ne: "strip s \<noteq> []"
  shows "\<not> isspace (hd (strip s)) \<and> \<not> isspace (last (strip s))"
proof -
  define t where "t = dropWhile isspace s"
  define u where "u = dropWhile isspace (rev t)"
  have s_u: "strip s = rev u" by (simp add: strip_def t_def u_def)
  with ne have u_ne: "u \<noteq> []" by simp
  then have t_ne: "t \<noteq> []" by (auto simp: u_def)
  have "last u = last (takeWhile isspace (rev t) @ u)" using u_ne by simp
  also have "\<dots> = last (rev t)" by (simp add: u_def)
  also have "\<dots> = hd t" using t_ne by (simp add: last_rev)
  finally have "hd (strip s) = hd t" using u_ne by (simp add: s_u hd_rev)
  moreover have "\<not> isspace (hd t)" using t_ne unfolding t_def by (rule hd_dropWhile)
  moreover have "last (strip s) = hd u" using u_ne by (simp add: s_u last_rev)
  moreover have "\<not> isspace (hd u)" using u_ne unfolding u_def by (rule hd_dropWhile)
  ultimately show ?thesis by simp
qed

lemma normalize_entries_texts:
  "map py_str xs = map Inr texts \<Longrightarrow>
     normalize_entries xs = Inr (filter (\<lambda>t. t \<noteq> []) (map strip texts))"
proof (induction xs arbitrary: texts)
  case Nil
  then show ?case by simp
next
  case (Cons p ps)
  then obtain t ts where texts: "texts = t # ts" "py_str p = Inr t" "map py_str ps = map Inr ts"
    by (cases texts) auto
  from Cons.IH [OF texts(3)] texts(1,2) show ?case by simp
qed

lemma all_convert_texts:
  "\<forall>p \<in> set xs. \<exists>s. py_str p = Inr s \<Longrightarrow> \<exists>texts. map py_str xs = map Inr texts"
proof (induction xs)
  case Nil
  then show ?case by simp
next
  case (Cons p ps)
  then obtain s ts where "py_str p = Inr s" "map py_str ps = map Inr ts" by auto
  then have "map py_str (p # ps) = map Inr (s # ts)" by simp
  then show ?case by blast
qed

lemma normalize_entries_raises:
  "\<exists>p \<in> set xs. \<exists>e. py_str p = Inl e \<Longrightarrow> normalize_entries xs = Inl digits_error"
proof (induction xs)
  case Nil
  then show ?case by simp
next
  case (Cons p ps)
  show ?case
  proof (cases "py_str p")
    case (Inl e)
    then show ?thesis using py_str_error [OF Inl] by simp
  next
    case (Inr t)
    with Cons.prems have "\<exists>q \<in> set ps. \<exists>e. py_str q = Inl e" by auto
    then have "normalize_entries ps = Inl digits_error" by (rule Cons.IH)
    with Inr show ?thesis by simp
  qed
qed

lemma normalize_entries_example:
  "normalize_entries [SStr ''  Foo  '', SStr [], SStr ''Bar'', SStr ''   '']
     = Inr [''Foo'', ''Bar'']"
  by (simp add: strip_def isspace_def)

text \<open>
  Claim C5 as stated speaks of every raw entry. An integer entry of more than 4300 digits
  has no text: \<^verbatim>\<open>str\<close> raises, and the normalization of the list raises with it.
\<close>

theorem normalization_huge_integer_counterexample:
  "normalize_entries [SInt (10 ^ max_str_digits)] = Inl digits_error"
  by (simp add: str_int_power_limit)

text \<open>
  Claim C5, as amended. When every raw entry has a text, normalization returns the texts
  of the entries, each trimmed, without the ones that became empty and in input order:
  the filtered list of the trimmed texts, a subsequence of them. Trimming a text \<open>s\<close>
  removes exactly its surrounding whitespace: \<open>s\<close> is whitespace, then the trimmed text,
  then whitespace, and a non-empty trimmed text neither starts nor ends with whitespace.
  The only entries without a text are the integers of more than 4300 digits, and a list
  that holds one raises the \<^verbatim>\<open>ValueError\<close> of the conversion. The list
  \<open>["  Foo  ", "", "Bar", "   "]\<close> normalizes to \<open>["Foo", "Bar"]\<close>.
\<close>

theorem normalization_trims_drops_keeps_order:
  "((\<forall>p \<in> set xs. \<exists>t. py_str p = Inr t) \<longrightarrow>
      (\<exists>texts. map py_str xs = map Inr texts
         \<and> normalize_entries xs = Inr (filter (\<lambda>t. t \<noteq> []) (map strip texts))
         \<and> subseq (filter (\<lambda>t. t \<noteq> []) (map strip texts)) (map strip texts)))
   \<and> ((\<exists>p \<in> set xs. \<exists>e. py_str p = Inl e) \<longrightarrow> normalize_entries xs = Inl digits_error)
   \<and> (\<exists>l r. s = l @ strip s @ r \<and> (\<forall>c \<in> set l. isspace c) \<and> (\<forall>c \<in> set r. isspace c))
   \<and> (strip s \<noteq> [] \<longrightarrow> \<not> isspace (hd (strip s)) \<and> \<not> isspace (last (strip s)))
   \<and> ((\<exists>e. py_str q = Inl e) \<longleftrightarrow> (\<exists>i. q = SInt i \<and> max_str_digits < int_digits i))
   \<and> normalize_entries [SStr ''  Foo  '', SStr [], SStr ''Bar'', SStr ''   '']
       = Inr [''Foo'', ''Bar'']"
proof -
  have converts: "(\<forall>p \<in> set xs. \<exists>t. py_str p = Inr t) \<longrightarrow>
      (\<exists>texts. map py_str xs = map Inr texts
         \<and> normalize_entries xs = Inr (filter (\<lambda>t. t \<noteq> []) (map strip texts))
         \<and> subseq (filter (\<lambda>t. t \<noteq> []) (map strip texts)) (map strip texts))"
  proof
    assume "\<forall>p \<in> set xs. \<exists>t. py_str p = Inr t"
    then obtain texts where texts: "map py_str xs = map Inr texts"
      using all_convert_texts by blast
    then have "normalize_entries xs = Inr (filter (\<lambda>t. t \<noteq> []) (map strip texts))"
      by (rule normalize_entries_texts)
    with texts show "\<exists>texts. map py_str xs = map Inr texts
         \<and> normalize_entries xs = Inr (filter (\<lambda>t. t \<noteq> []) (map strip texts))
         \<and> subseq (filter (\<lambda>t. t \<noteq> []) (map strip texts)) (map strip texts)"
      by auto
  qed
  have raises: "(\<exists>p \<in> set xs. \<exists>e. py_str p = Inl e) \<longrightarrow> normalize_entries xs = Inl digits_error"
    using normalize_entries_raises by blast
  have ends: "strip s \<noteq> [] \<longrightarrow> \<not> isspace (hd (strip s)) \<and> \<not> isspace (last (strip s))"
    using strip_trimmed by blast
  have no_text: "(\<exists>e. py_str q = Inl e) \<longleftrightarrow> (\<exists>i. q = SInt i \<and> max_str_digits < int_digits i)"
    by (cases q) (auto simp add: str_int_def)
  show ?thesis
    by (intro conjI converts raises strip_decomposition ends no_text normalize_entries_example)
qed

theorem normalization_trims_drops_keeps_order_witness:
  "py_str (SInt 7) = Inr ''7''
   \<and> normalize_entries [SInt 7, SStr '' a b '', SNone, SStr [CHR 0x09]]
       = Inr [''7'', ''a b'', ''None'']
   \<and> py_str (SInt (10 ^ max_str_digits)) = Inl digits_error
   \<and> normalize_entries [SStr ''x'', SInt (10 ^ max_str_digits)] = Inl digits_error
   \<and> strip '' a b '' = ''a b''
   \<and> \<not> isspace (hd ''a b'') \<and> \<not> isspace (last ''a b'')"
proof -
  let ?xs = "[SInt 7, SStr '' a b '', SNone, SStr [CHR 0x09]]"
  let ?ys = "[SStr ''x'', SInt (10 ^ max_str_digits)]"
  have seven: "py_str (SInt 7) = Inr ''7''"
    by (simp add: str_int_def int_digits_def max_str_digits_def dec_text_def str_nat.simps
          digit_def)
  have trim: "strip '' a b '' = ''a b''" by (simp add: strip_def isspace_def)
  have huge: "py_str (SInt (10 ^ max_str_digits)) = Inl digits_error"
    by (simp add: str_int_power_limit)
  have "\<forall>p \<in> set ?xs. \<exists>t. py_str p = Inr t" using seven by simp
  with normalization_trims_drops_keeps_order [of ?xs "'' a b ''" "SInt 7"]
  obtain texts where texts: "map py_str ?xs = map Inr texts"
      "normalize_entries ?xs = Inr (filter (\<lambda>t. t \<noteq> []) (map strip texts))"
    by blast
  have "map py_str ?xs = map Inr [''7'', '' a b '', ''None'', [CHR 0x09]]"
    using seven by simp
  with texts(1) have "texts = [''7'', '' a b '', ''None'', [CHR 0x09]]"
    by (simp only: inj_map_eq_map [OF inj_Inr])
  with texts(2) have xs: "normalize_entries ?xs = Inr [''7'', ''a b'', ''None'']"
    by (simp add: strip_def isspace_def)
  have "\<exists>p \<in> set ?ys. \<exists>e. py_str p = Inl e" using huge by simp
  with normalization_trims_drops_keeps_order [of ?ys "'' a b ''" "SInt 7"]
  have ys: "normalize_entries ?ys = Inl digits_error" by blast
  have "strip '' a b '' \<noteq> []" by (simp add: trim)
  with normalization_trims_drops_keeps_order [of ?xs "'' a b ''" "SInt 7"]
  have "\<not> isspace (hd (strip '' a b '')) \<and> \<not> isspace (last (strip '' a b ''))" by blast
  then have ends: "\<not> isspace (hd ''a b'') \<and> \<not> isspace (last ''a b'')" by (simp add: trim)
  from seven xs huge ys trim ends show ?thesis by (intro conjI) simp_all
qed

section \<open>Sampling without replacement\<close>

lemma sample_pool_length:
  "k \<le> length pool \<Longrightarrow> length (fst (sample_pool pool k g)) = k"
  by (induction k arbitrary: pool g) (auto simp: split_def Let_def)

lemma mset_pool_step:
  assumes "j < length pool"
  shows "mset (butlast (pool[j := last pool])) + {#pool ! j#} = mset pool"
proof (cases pool rule: rev_cases)
  case Nil
  with assms show ?thesis by simp
next
  case (snoc ys l)
  show ?thesis
  proof (cases "j = length ys")
    case True
    then show ?thesis by (simp add: snoc)
  next
    case False
    with assms snoc have j: "j < length ys" by simp
    then have "pool[j := last pool] = ys[j := l] @ [l]"
      by (simp add: snoc list_update_append)
    then show ?thesis using j
      by (simp add: snoc nth_append mset_update)
  qed
qed

lemma randbelow_less: "0 < n \<Longrightarrow> fst (randbelow n g) < n"
  by (simp add: randbelow_def)

lemma sample_pool_mset:
  "k \<le> length pool \<Longrightarrow> mset (fst (sample_pool pool k g)) \<subseteq># mset pool"
proof (induction k arbitrary: pool g)
  case 0
  then show ?case by simp
next
  case (Suc k)
  obtain j g1 where r: "randbelow (length pool) g = (j, g1)" by (cases "randbelow (length pool) g")
  from Suc.prems have pos: "0 < length pool" by auto
  with r randbelow_less [of "length pool" g] have j: "j < length pool" by simp
  let ?pool' = "butlast (pool[j := last pool])"
  have "k \<le> length ?pool'" using Suc.prems by simp
  then have "mset (fst (sample_pool ?pool' k g1)) \<subseteq># mset ?pool'" by (rule Suc.IH)
  then have "mset (pool ! j # fst (sample_pool ?pool' k g1)) \<subseteq># mset ?pool' + {#pool ! j#}"
    by simp
  also have "\<dots> = mset pool" by (rule mset_pool_step [OF j])
  finally show ?case using r by (simp add: split_def Let_def)
qed

lemma sample_pool_map:
  "k \<le> length pool \<Longrightarrow>
     sample_pool (map f pool) k g
       = (map f (fst (sample_pool pool k g)), snd (sample_pool pool k g))"
proof (induction k arbitrary: pool g)
  case 0
  then show ?case by simp
next
  case (Suc k)
  obtain j g1 where r: "randbelow (length pool) g = (j, g1)" by (cases "randbelow (length pool) g")
  from Suc.prems have ne: "pool \<noteq> []" by auto
  with r randbelow_less [of "length pool" g] have j: "j < length pool" by simp
  let ?pool' = "butlast (pool[j := last pool])"
  have step: "butlast ((map f pool)[j := last (map f pool)]) = map f ?pool'"
    using ne by (simp add: last_map map_update map_butlast)
  have "k \<le> length ?pool'" using Suc.prems by simp
  then have "sample_pool (map f ?pool') k g1
               = (map f (fst (sample_pool ?pool' k g1)), snd (sample_pool ?pool' k g1))"
    by (rule Suc.IH)
  then show ?case using r j step
    by (simp add: split_def Let_def)
qed

lemma distinct_of_mset_subset:
  assumes "mset ys \<subseteq># mset xs" and "distinct xs"
  shows "distinct ys"
proof -
  have "count (mset ys) a = (if a \<in> set ys then 1 else 0)" for a
  proof -
    have le: "count (mset ys) a \<le> count (mset xs) a"
      using assms(1) by (rule mset_subset_eq_count)
    have one: "count (mset xs) a \<le> 1"
      using assms(2) by (simp add: distinct_count_atmost_1)
    show ?thesis
    proof (cases "a \<in> set ys")
      case True
      then have "count (mset ys) a \<noteq> 0" by (simp add: count_eq_zero_iff)
      with le one have "count (mset ys) a = 1" by linarith
      with True show ?thesis by simp
    next
      case False
      then show ?thesis by (simp add: count_eq_zero_iff)
    qed
  qed
  then show ?thesis by (simp add: distinct_count_atmost_1)
qed

lemma sample_pool_positions:
  assumes "k \<le> length pool"
  shows "\<exists>ps. fst (sample_pool pool k g) = map ((!) pool) ps
               \<and> length ps = k \<and> distinct ps \<and> set ps \<subseteq> {..<length pool}"
proof -
  let ?all = "[0..<length pool]"
  let ?is = "fst (sample_pool ?all k g)"
  have k: "k \<le> length ?all" using assms by simp
  have sub: "mset ?is \<subseteq># mset ?all" using k by (rule sample_pool_mset)
  have "distinct ?is"
    using sub distinct_upt [of 0 "length pool"] by (rule distinct_of_mset_subset)
  moreover have "set ?is \<subseteq> {..<length pool}"
    using set_mset_mono [OF sub] by auto
  moreover have "length ?is = k" using k by (rule sample_pool_length)
  moreover have "fst (sample_pool pool k g) = map ((!) pool) ?is"
    using sample_pool_map [OF k, of "(!) pool" g] by (simp add: map_nth)
  ultimately show ?thesis by blast
qed

section \<open>Random selection\<close>

lemma generator_print [simp]: "generator (print l s) = generator s"
  by (simp add: print_def)

lemma stdout_print [simp]: "stdout (print l s) = stdout s @ [l]"
  by (simp add: print_def)

lemma select_nonpositive:
  "K \<le> 0 \<Longrightarrow> select_random_projects P K s = (Inr [], s)"
  by (simp add: select_random_projects_def)

lemma select_in_range:
  "0 < K \<Longrightarrow> K \<le> int (length P) \<Longrightarrow>
     select_random_projects P K s
       = (Inr (fst (sample_pool P (nat K) (generator s))),
          s\<lparr>generator := snd (sample_pool P (nat K) (generator s))\<rparr>)"
  by (simp add: select_random_projects_def sample_def split_def Let_def)

lemma select_clamped:
  assumes "int (length P) < K" and "int_digits K \<le> max_str_digits"
  shows "select_random_projects P K s
       = select_random_projects P (int (length P))
           (print (''Warning: Requested '' @ dec_text K @ '' projects but only ''
                   @ dec_text (int (length P)) @ '' available'') s)"
proof -
  have "int_digits (int (length P)) \<le> int_digits K"
    using assms(1) by (intro int_digits_mono) simp_all
  with assms(2) have "str_int (int (length P)) = Inr (dec_text (int (length P)))"
    by (intro str_int_within_limit) simp
  moreover have "str_int K = Inr (dec_text K)"
    using assms(2) by (rule str_int_within_limit)
  ultimately show ?thesis using assms(1)
    by (simp add: select_random_projects_def)
qed

lemma select_beyond_limit:
  "int (length P) < K \<Longrightarrow> max_str_digits < int_digits K \<Longrightarrow>
     select_random_projects P K s = (Inl digits_error, s)"
  by (simp add: select_random_projects_def str_int_beyond_limit)

lemma select_whole_list:
  "\<exists>sel. fst (select_random_projects P (int (length P)) s) = Inr sel \<and> length sel = length P"
proof (cases "P = []")
  case True
  then show ?thesis by (simp add: select_nonpositive)
next
  case False
  then have "0 < int (length P)" by simp
  then show ?thesis
    by (simp add: select_in_range sample_pool_length)
qed

lemma select_result_ignores_stdout:
  "generator s = generator t \<Longrightarrow>
     fst (select_random_projects P (int (length P)) s)
       = fst (select_random_projects P (int (length P)) t)"
  by (cases "P = []") (simp_all add: select_nonpositive select_in_range)

lemma select_stdout_in_range:
  "K \<le> int (length P) \<Longrightarrow> stdout (snd (select_random_projects P K s)) = stdout s"
  by (cases "K \<le> 0") (simp_all add: select_nonpositive select_in_range)

lemma ten_below_limit_power: "(10::int) \<le> 10 ^ max_str_digits"
proof -
  have "1 \<le> max_str_digits" by (simp add: max_str_digits_def)
  then have "(10::int) ^ 1 \<le> 10 ^ max_str_digits" by (rule power_increasing) simp
  then show ?thesis by simp
qed

text \<open>
  Claim C1, as amended. For every list \<open>P\<close> and count \<open>0 < K \<le> |P|\<close> the selection has
  exactly \<open>K\<close> entries, each a member of \<open>P\<close>, read at \<open>K\<close> pairwise different positions of
  \<open>P\<close>; it has no repeated name when \<open>P\<close> has none.
\<close>

theorem select_returns_K_positions:
  assumes "0 < K" and "K \<le> int (length P)"
  shows "\<exists>sel ps. fst (select_random_projects P K s) = Inr sel
           \<and> int (length sel) = K \<and> set sel \<subseteq> set P
           \<and> sel = map ((!) P) ps \<and> distinct ps \<and> set ps \<subseteq> {..<length P}
           \<and> (distinct P \<longrightarrow> distinct sel)"
proof -
  let ?sel = "fst (sample_pool P (nat K) (generator s))"
  have k: "nat K \<le> length P" using assms by linarith
  obtain ps where ps: "?sel = map ((!) P) ps" "length ps = nat K" "distinct ps"
      "set ps \<subseteq> {..<length P}"
    using sample_pool_positions [OF k, of "generator s"] by blast
  have sub: "mset ?sel \<subseteq># mset P" using k by (rule sample_pool_mset)
  have "fst (select_random_projects P K s) = Inr ?sel"
    using assms by (simp add: select_in_range)
  moreover have "int (length ?sel) = K"
    using assms sample_pool_length [OF k, of "generator s"] by simp
  moreover have "set ?sel \<subseteq> set P" using set_mset_mono [OF sub] by simp
  moreover have "distinct P \<longrightarrow> distinct ?sel"
    using sub by (blast intro: distinct_of_mset_subset)
  ultimately show ?thesis using ps by blast
qed

theorem select_returns_K_positions_witness:
  "(0::int) < 2 \<and> 2 \<le> int (length [''a'', ''b'', ''c''])
   \<and> fst (select_random_projects [''a'', ''b'', ''c''] 2
             \<lparr>generator = constant_tape 1, stdout = []\<rparr>) = Inr [''b'', ''c'']
   \<and> distinct [''b'', ''c'']"
proof -
  have ev: "fst (select_random_projects [''a'', ''b'', ''c''] 2
             \<lparr>generator = constant_tape 1, stdout = []\<rparr>) = Inr [''b'', ''c'']"
    by code_simp
  show ?thesis
    using select_returns_K_positions
      [of 2 "[''a'', ''b'', ''c'']" "\<lparr>generator = constant_tape 1, stdout = []\<rparr>"] ev
    by simp
qed

text \<open>
  Claim C1 as stated asks for no entry twice in the output of any non-empty list. The
  list may hold a name twice, and then so may the selection: both positions of
  \<open>["a", "a"]\<close> are drawn for \<open>K = 2\<close>.
\<close>

theorem select_duplicate_names_counterexample:
  "fst (select_random_projects [''a'', ''a''] 2 \<lparr>generator = constant_tape 0, stdout = []\<rparr>)
     = Inr [''a'', ''a'']
   \<and> \<not> distinct (projr (fst (select_random_projects [''a'', ''a''] 2
                                 \<lparr>generator = constant_tape 0, stdout = []\<rparr>)))"
  by code_simp

text \<open>
  Claim C4 as stated promises a warning and no error for every count above \<open>|P|\<close>. The
  warning is formatted before the count is clamped, and a count of 4301 digits cannot be
  formatted: for the empty list and the count \<open>10 ^ 4300\<close> the call raises
  \<^verbatim>\<open>ValueError\<close> and prints nothing.
\<close>

theorem select_huge_count_counterexample:
  "int (length ([] :: string list)) < 10 ^ max_str_digits
   \<and> select_random_projects [] (10 ^ max_str_digits)
         \<lparr>generator = constant_tape 0, stdout = []\<rparr>
       = (Inl digits_error, \<lparr>generator = constant_tape 0, stdout = []\<rparr>)"
proof -
  have "int (length ([] :: string list)) < 10 ^ max_str_digits" by simp
  moreover have "max_str_digits < int_digits (10 ^ max_str_digits)"
    by (simp add: int_digits_power)
  ultimately show ?thesis by (simp add: select_beyond_limit)
qed

text \<open>
  Claim C4, as amended. A count above \<open>|P|\<close> of at most 4300 digits is clamped: the call
  returns normally what the call with \<open>|P|\<close> returns, a selection of exactly \<open>|P|\<close>
  entries, and prints one warning line. A count above \<open>|P|\<close> of more digits raises the
  \<^verbatim>\<open>ValueError\<close> of the conversion, and the state is unchanged. A count \<open>K \<le> 0\<close>
  returns the empty selection and changes nothing.
\<close>

theorem select_clamps_to_length:
  "(int (length P) < K \<and> int_digits K \<le> max_str_digits \<longrightarrow>
      (\<exists>sel. fst (select_random_projects P K s) = Inr sel \<and> length sel = length P)
      \<and> fst (select_random_projects P K s) = fst (select_random_projects P (int (length P)) s)
      \<and> stdout (snd (select_random_projects P K s))
          = stdout s @ [''Warning: Requested '' @ dec_text K @ '' projects but only ''
                        @ dec_text (int (length P)) @ '' available''])
   \<and> (int (length P) < K \<and> max_str_digits < int_digits K \<longrightarrow>
        select_random_projects P K s = (Inl digits_error, s))
   \<and> (K \<le> 0 \<longrightarrow> select_random_projects P K s = (Inr [], s))"
proof -
  let ?s1 = "print (''Warning: Requested '' @ dec_text K @ '' projects but only ''
                   @ dec_text (int (length P)) @ '' available'') s"
  have clamp: "(\<exists>sel. fst (select_random_projects P K s) = Inr sel \<and> length sel = length P)
      \<and> fst (select_random_projects P K s) = fst (select_random_projects P (int (length P)) s)
      \<and> stdout (snd (select_random_projects P K s))
          = stdout s @ [''Warning: Requested '' @ dec_text K @ '' projects but only ''
                        @ dec_text (int (length P)) @ '' available'']"
    if big: "int (length P) < K" and digits: "int_digits K \<le> max_str_digits"
  proof (intro conjI)
    have eq: "select_random_projects P K s = select_random_projects P (int (length P)) ?s1"
      using big digits by (rule select_clamped)
    show "\<exists>sel. fst (select_random_projects P K s) = Inr sel \<and> length sel = length P"
      unfolding eq by (rule select_whole_list)
    show "fst (select_random_projects P K s) = fst (select_random_projects P (int (length P)) s)"
      unfolding eq by (rule select_result_ignores_stdout) simp
    show "stdout (snd (select_random_projects P K s))
            = stdout s @ [''Warning: Requested '' @ dec_text K @ '' projects but only ''
                          @ dec_text (int (length P)) @ '' available'']"
      unfolding eq by (simp add: select_stdout_in_range)
  qed
  show ?thesis
    using clamp select_beyond_limit [of P K s] select_nonpositive [of K P s] by blast
qed

theorem select_clamps_to_length_witness:
  "int (length [''a'', ''b'']) < 5 \<and> int_digits 5 \<le> max_str_digits
   \<and> fst (select_random_projects [''a'', ''b''] 5 \<lparr>generator = constant_tape 0, stdout = []\<rparr>)
       = Inr [''a'', ''b'']
   \<and> stdout (snd (select_random_projects [''a'', ''b''] 5
                     \<lparr>generator = constant_tape 0, stdout = []\<rparr>))
       = [''Warning: Requested 5 projects but only 2 available'']
   \<and> int (length [''a'', ''b'']) < 10 ^ max_str_digits
   \<and> max_str_digits < int_digits (10 ^ max_str_digits)
   \<and> fst (select_random_projects [''a'', ''b''] (10 ^ max_str_digits)
             \<lparr>generator = constant_tape 0, stdout = []\<rparr>) = Inl digits_error
   \<and> (-1::int) \<le> 0
   \<and> fst (select_random_projects [''a'', ''b''] (-1) \<lparr>generator = constant_tape 0, stdout = []\<rparr>)
       = Inr []"
proof -
  let ?P = "[''a'', ''b'']"
  let ?s = "\<lparr>generator = constant_tape 0, stdout = []\<rparr>"
  have five: "int (length ?P) < 5 \<and> int_digits 5 \<le> max_str_digits"
    by (simp add: int_digits_def str_nat.simps max_str_digits_def)
  have texts: "dec_text 5 = ''5''" "dec_text (int (length ?P)) = ''2''"
    by (simp_all add: dec_text_def str_nat.simps digit_def)
  have whole: "fst (select_random_projects ?P (int (length ?P)) ?s) = Inr [''a'', ''b'']"
    by code_simp
  from select_clamps_to_length [of ?P 5 ?s] five
  have clamped: "fst (select_random_projects ?P 5 ?s)
                   = fst (select_random_projects ?P (int (length ?P)) ?s)"
    "stdout (snd (select_random_projects ?P 5 ?s))
       = stdout ?s @ [''Warning: Requested '' @ dec_text 5 @ '' projects but only ''
                      @ dec_text (int (length ?P)) @ '' available'']"
    by blast+
  have huge: "int (length ?P) < 10 ^ max_str_digits
              \<and> max_str_digits < int_digits (10 ^ max_str_digits)"
    using ten_below_limit_power by (simp add: int_digits_power)
  with select_clamps_to_length [of ?P "10 ^ max_str_digits" ?s]
  have raised: "select_random_projects ?P (10 ^ max_str_digits) ?s = (Inl digits_error, ?s)"
    by blast
  from select_clamps_to_length [of ?P "-1" ?s]
  have empty: "select_random_projects ?P (-1) ?s = (Inr [], ?s)" by simp
  have a: "fst (select_random_projects ?P 5 ?s) = Inr [''a'', ''b'']"
    using clamped(1) whole by simp
  have b: "stdout (snd (select_random_projects ?P 5 ?s))
             = [''Warning: Requested 5 projects but only 2 available'']"
    using clamped(2) texts by simp
  from five a b huge raised empty show ?thesis by simp
qed

text \<open>
  Claim C9. For every list \<open>P\<close>, duplicates allowed, and every count \<open>K\<close> the selection
  is contained in \<open>P\<close> as a multiset: no name occurs in it more often than in \<open>P\<close>. The
  call returns a selection unless the count is above \<open>|P|\<close> and has more than 4300
  digits; then it raises and there is no selection.
\<close>

theorem select_multiset_contained:
  "(\<exists>sel. fst (select_random_projects P K s) = Inr sel \<and> mset sel \<subseteq># mset P)
   \<or> (fst (select_random_projects P K s) = Inl digits_error
       \<and> int (length P) < K \<and> max_str_digits < int_digits K)"
proof -
  consider "K \<le> 0" | "0 < K" "K \<le> int (length P)"
    | "int (length P) < K" "int_digits K \<le> max_str_digits"
    | "int (length P) < K" "max_str_digits < int_digits K"
    by linarith
  then show ?thesis
  proof cases
    case 1
    then show ?thesis by (simp add: select_nonpositive)
  next
    case 2
    then have "nat K \<le> length P" by linarith
    then have "mset (fst (sample_pool P (nat K) (generator s))) \<subseteq># mset P"
      by (rule sample_pool_mset)
    with 2 show ?thesis by (simp add: select_in_range)
  next
    case 3
    show ?thesis
    proof (cases "P = []")
      case True
      with 3 show ?thesis by (simp add: select_clamped select_nonpositive)
    next
      case False
      then have "0 < int (length P)" by simp
      moreover have "mset (fst (sample_pool P (length P) g)) \<subseteq># mset P" for g
        by (rule sample_pool_mset) simp
      ultimately show ?thesis using 3 by (simp add: select_clamped select_in_range)
    qed
  next
    case 4
    then show ?thesis by (simp add: select_beyond_limit)
  qed
qed

section \<open>Seeding\<close>

lemma init_truthy_seed:
  "v \<noteq> 0 \<Longrightarrow> generator (RDProjectRandomizer_init seed_state (Some v) s) = seed_state v"
  by (simp add: RDProjectRandomizer_init_def)

lemma select_result_depends_on_generator:
  "generator s = generator t \<Longrightarrow>
     fst (select_random_projects P K s) = fst (select_random_projects P K t)"
proof -
  assume g: "generator s = generator t"
  consider "K \<le> 0" | "0 < K" "K \<le> int (length P)"
    | "int (length P) < K" "int_digits K \<le> max_str_digits"
    | "int (length P) < K" "max_str_digits < int_digits K"
    by linarith
  then show ?thesis
  proof cases
    case 1
    then show ?thesis by (simp add: select_nonpositive)
  next
    case 2
    then show ?thesis using g by (simp add: select_in_range)
  next
    case 3
    let ?w = "''Warning: Requested '' @ dec_text K @ '' projects but only ''
                @ dec_text (int (length P)) @ '' available''"
    have "fst (select_random_projects P (int (length P)) (print ?w s))
            = fst (select_random_projects P (int (length P)) (print ?w t))"
      by (rule select_result_ignores_stdout) (simp add: g)
    with 3 show ?thesis by (simp add: select_clamped)
  next
    case 4
    then show ?thesis by (simp add: select_beyond_limit)
  qed
qed

text \<open>
  With a seed other than \<open>0\<close> the constructor replaces the generator, so two runs that
  start from any two process states select the same entries.
\<close>

lemma seeded_selection_deterministic:
  "S \<noteq> 0 \<Longrightarrow>
     fst (select_random_projects P K (RDProjectRandomizer_init seed_state (Some S) s))
       = fst (select_random_projects P K (RDProjectRandomizer_init seed_state (Some S) t))"
  by (rule select_result_depends_on_generator) (simp add: init_truthy_seed)

text \<open>
  Claim C3 asks the same of every explicit seed. The seed \<open>0\<close> is explicit and is
  skipped by the truthiness test: two runs constructed with \<open>seed = 0\<close> keep the
  generators they started with, and select \<open>["a"]\<close> in one process and \<open>["b"]\<close> in the other.
\<close>

theorem seed_zero_runs_differ:
  "fst (select_random_projects [''a'', ''b''] 1
          (RDProjectRandomizer_init seed_state (Some 0)
             \<lparr>generator = constant_tape 0, stdout = []\<rparr>)) = Inr [''a'']
   \<and> fst (select_random_projects [''a'', ''b''] 1
          (RDProjectRandomizer_init seed_state (Some 0)
             \<lparr>generator = constant_tape 1, stdout = []\<rparr>)) = Inr [''b'']"
proof -
  have "fst (select_random_projects [''a'', ''b''] 1
              \<lparr>generator = constant_tape 0, stdout = []\<rparr>) = Inr [''a'']"
       "fst (select_random_projects [''a'', ''b''] 1
              \<lparr>generator = constant_tape 1, stdout = []\<rparr>) = Inr [''b'']"
    by code_simp+
  then show ?thesis by (simp add: RDProjectRandomizer_init_def)
qed

text \<open>
  Claim C10. The constructor with \<open>seed = 0\<close> or \<open>seed = None\<close> leaves the process state,
  and so the generator, as it was: the generator is replaced for the other seeds only,
  and \<open>seed = 0\<close> does what no seed does.
\<close>

theorem init_seed_zero_is_no_seed:
  "RDProjectRandomizer_init seed_state (Some 0) s = s
   \<and> RDProjectRandomizer_init seed_state None s = s
   \<and> RDProjectRandomizer_init seed_state seed s
       = (if seed = None \<or> seed = Some 0 then s
          else s\<lparr>generator := seed_state (the seed)\<rparr>)"
  by (cases seed) (simp_all add: RDProjectRandomizer_init_def)

section \<open>Spreadsheet loading and orchestration\<close>

lemma load_projects_try_generator:
  "load_projects_try read_excel file_path col s = Inr (projects, s1) \<Longrightarrow>
     generator s1 = generator s"
  by (auto simp add: load_projects_try_def split: sum.splits option.splits list.splits if_splits)

lemma load_projects_generator:
  "generator (snd (load_projects_from_excel read_excel file_path col s)) = generator s"
  by (cases "load_projects_try read_excel file_path col s")
     (auto simp add: load_projects_from_excel_def dest: load_projects_try_generator)

lemma resolve_input_generator:
  "generator (snd (resolve_input read_excel inp col s)) = generator s"
  by (cases inp)
     (simp_all add: resolve_input_def split_def Let_def load_projects_generator
        split: sum.splits)

text \<open>
  Claim C6. When the resolved project list is empty, \<^verbatim>\<open>randomize_projects\<close> returns the
  result that carries the error text alone, and does nothing after the loading step: the
  process state is the one the loading step left, and the generator is untouched.
\<close>

theorem empty_input_returns_error_only:
  assumes "fst (resolve_input read_excel inp col s) = Inr []"
  shows "fst (randomize_projects read_excel inp n col lvl s)
           = Inr (ErrorResult ''No projects found in input'')
         \<and> snd (randomize_projects read_excel inp n col lvl s)
           = snd (resolve_input read_excel inp col s)
         \<and> generator (snd (randomize_projects read_excel inp n col lvl s)) = generator s"
proof -
  obtain s1 where r: "resolve_input read_excel inp col s = (Inr [], s1)"
    using assms by (cases "resolve_input read_excel inp col s") simp
  have "randomize_projects read_excel inp n col lvl s
          = (Inr (ErrorResult ''No projects found in input''), s1)"
    by (simp add: randomize_projects_def r)
  then show ?thesis using r resolve_input_generator [of read_excel inp col s] by simp
qed

theorem empty_input_returns_error_only_witness:
  "fst (resolve_input (\<lambda>p. Inl (OtherError ''no such file''))
          (InMemoryList [SStr '' '', SStr []]) None \<lparr>generator = constant_tape 3, stdout = []\<rparr>)
     = Inr []
   \<and> randomize_projects (\<lambda>p. Inl (OtherError ''no such file''))
          (InMemoryList [SStr '' '', SStr []]) (Some 2) None Moderate
          \<lparr>generator = constant_tape 3, stdout = []\<rparr>
     = (Inr (ErrorResult ''No projects found in input''),
        \<lparr>generator = constant_tape 3, stdout = [''Using provided list of 0 projects'']\<rparr>)"
proof -
  have ev: "resolve_input (\<lambda>p. Inl (OtherError ''no such file''))
          (InMemoryList [SStr '' '', SStr []]) None \<lparr>generator = constant_tape 3, stdout = []\<rparr>
     = (Inr [], \<lparr>generator = constant_tape 3, stdout = [''Using provided list of 0 projects'']\<rparr>)"
    by (simp add: resolve_input_def strip_def isspace_def print_def str_int_def int_digits_def
          max_str_digits_def dec_text_def str_nat.simps digit_def)
  show ?thesis
    using empty_input_returns_error_only
      [of "\<lambda>p. Inl (OtherError ''no such file'')" "InMemoryList [SStr '' '', SStr []]" None
          "\<lparr>generator = constant_tape 3, stdout = []\<rparr>" "Some 2" Moderate]
    by (simp add: ev prod_eq_iff)
qed

text \<open>
  Whatever exception the body of \<^verbatim>\<open>load_projects_from_excel\<close> raises, the method returns
  the empty list and prints a diagnostic with the exception's text; so it does when the
  file cannot be read, and when a column name that is not empty is not in the sheet.
\<close>

lemma load_failure_returns_empty:
  "(\<forall>e. load_projects_try read_excel file_path col s = Inl e \<longrightarrow>
        load_projects_from_excel read_excel file_path col s
          = ([], print (''Error loading Excel file: '' @ exn_text e) s))
   \<and> (\<forall>e. read_excel file_path = Inl e \<longrightarrow>
        load_projects_from_excel read_excel file_path col s
          = ([], print (''Error loading Excel file: '' @ exn_text e) s))
   \<and> (\<forall>df c. read_excel file_path = Inr df \<and> col = Some c \<and> c \<noteq> [] \<and> c \<notin> fst ` set df \<longrightarrow>
        load_projects_from_excel read_excel file_path col s
          = ([], print (''Error loading Excel file: Column '' @ [CHR 0x27] @ c @ [CHR 0x27]
                        @ '' not found in Excel file'') s))"
proof (intro conjI allI impI)
  fix e
  assume "load_projects_try read_excel file_path col s = Inl e"
  then show "load_projects_from_excel read_excel file_path col s
          = ([], print (''Error loading Excel file: '' @ exn_text e) s)"
    by (simp add: load_projects_from_excel_def)
next
  fix e
  assume "read_excel file_path = Inl e"
  then show "load_projects_from_excel read_excel file_path col s
          = ([], print (''Error loading Excel file: '' @ exn_text e) s)"
    by (simp add: load_projects_from_excel_def load_projects_try_def)
next
  fix df c
  assume a: "read_excel file_path = Inr df \<and> col = Some c \<and> c \<noteq> [] \<and> c \<notin> fst ` set df"
  then have "map_of df c = None" by (simp add: map_of_eq_None_iff)
  with a show "load_projects_from_excel read_excel file_path col s
          = ([], print (''Error loading Excel file: Column '' @ [CHR 0x27] @ c @ [CHR 0x27]
                        @ '' not found in Excel file'') s)"
    by (simp add: load_projects_from_excel_def load_projects_try_def)
qed


end
